theory Spec2Isabelle
  imports Main
begin

section \<open>Google Photos media source: the identifier codec\<close>

text \<open>
  The module \<^verbatim>\<open>homeassistant/components/google_photos/media_source.py\<close> is embedded
  function by function. Python strings are \<^typ>\<open>string\<close>; the only character the codec
  looks at is the ASCII delimiter \<^verbatim>\<open>/\<close>, so splitting bytes and splitting code points
  agree. \<^verbatim>\<open>str | None\<close> is \<^typ>\<open>string option\<close>. Every \<^verbatim>\<open>raise\<close> is a value
  \<open>Inl\<close> of a sum type.
\<close>

subsection \<open>Constants\<close>

definition MAX_PHOTOS :: nat where
  "MAX_PHOTOS = 50"

definition PAGE_SIZE :: nat where
  "PAGE_SIZE = 100"

definition THUMBNAIL_SIZE :: int where
  "THUMBNAIL_SIZE = 256"

definition LARGE_IMAGE_SIZE :: int where
  "LARGE_IMAGE_SIZE = 2048"

definition PHOTO_SOURCE_IDENTIFIER_PHOTO :: string where
  "PHOTO_SOURCE_IDENTIFIER_PHOTO = ''p''"

definition PHOTO_SOURCE_IDENTIFIER_ALBUM :: string where
  "PHOTO_SOURCE_IDENTIFIER_ALBUM = ''a''"

definition RECENT_PHOTOS_ALBUM :: string where
  "RECENT_PHOTOS_ALBUM = ''recent''"

definition RECENT_PHOTOS_TITLE :: string where
  "RECENT_PHOTOS_TITLE = ''Recent Photos''"

subsection \<open>The identifier and its string form\<close>

record PhotosIdentifier =
  config_entry_id :: string
  album_media_id :: "string option"
  photo_media_id :: "string option"

text \<open>
  \<^verbatim>\<open>PhotosIdentifier.as_string\<close>: the item reference is looked at first, then the album
  reference; the f-strings are concatenations around the marker literal.
\<close>

definition as_string :: "PhotosIdentifier \<Rightarrow> string" where
  "as_string self =
     (case photo_media_id self of
        None \<Rightarrow>
          (case album_media_id self of
             None \<Rightarrow> config_entry_id self
           | Some album \<Rightarrow>
               config_entry_id self @ ''/'' @ PHOTO_SOURCE_IDENTIFIER_ALBUM @ ''/'' @ album)
      | Some photo \<Rightarrow>
          config_entry_id self @ ''/'' @ PHOTO_SOURCE_IDENTIFIER_PHOTO @ ''/'' @ photo)"

text \<open>
  Python's \<^verbatim>\<open>str.split(sep)\<close> for a one-character separator: a string with \<open>k\<close>
  occurrences of the separator gives \<open>k + 1\<close> parts, empty parts included, and the empty
  string gives one empty part. The result is never the empty list, so \<open>hd\<close> and \<open>tl\<close>
  of the recursive result are defined.
\<close>

fun split :: "char \<Rightarrow> string \<Rightarrow> string list" where
  "split sep [] = [[]]"
| "split sep (c # cs) =
     (if c = sep then [] # split sep cs
      else (c # hd (split sep cs)) # tl (split sep cs))"

text \<open>
  The exceptions of the module. Every \<^verbatim>\<open>raise BrowseError(...)\<close> site has its own
  message; the message is kept as the site together with the value its f-string
  interpolates, so that two sites are never confused. \<^verbatim>\<open>GooglePhotosApiError\<close> is the
  typed error of the remote client, carrying its text.
\<close>

datatype GooglePhotosApiError = GooglePhotosApiError string

datatype message =
    Invalid_identifier string
  | Could_not_resolve_identifier_without_a_photo_media_id PhotosIdentifier
  | Could_not_find_config_entry_for_identifier string
  | Unsupported_album PhotosIdentifier
  | Error_listing_media_items GooglePhotosApiError

datatype exn =
    BrowseError message
  | Uncaught GooglePhotosApiError

text \<open>
  \<^verbatim>\<open>parse_identifier\<close>: one part is an account; anything but three parts is rejected;
  with three parts the middle one is compared with the photo marker only, and every
  other middle part takes the last \<^verbatim>\<open>return\<close>, the album.
\<close>

definition parse_identifier :: "string \<Rightarrow> exn + PhotosIdentifier" where
  "parse_identifier identifier =
     (let parts = split CHR ''/'' identifier in
      if length parts = 1 then
        Inr \<lparr>config_entry_id = parts ! 0, album_media_id = None, photo_media_id = None\<rparr>
      else if length parts \<noteq> 3 then
        Inl (BrowseError (Invalid_identifier identifier))
      else if parts ! 1 = PHOTO_SOURCE_IDENTIFIER_PHOTO then
        Inr \<lparr>config_entry_id = parts ! 0, album_media_id = None,
             photo_media_id = Some (parts ! 2)\<rparr>
      else
        Inr \<lparr>config_entry_id = parts ! 0, album_media_id = Some (parts ! 2),
             photo_media_id = None\<rparr>)"

text \<open>
  The data model's invariant on identifiers (the docstrings of the two optional fields:
  "Not present at the same time"), and the fields in which the delimiter does not occur.
\<close>

definition valid_identifier :: "PhotosIdentifier \<Rightarrow> bool" where
  "valid_identifier x = (album_media_id x = None \<or> photo_media_id x = None)"

definition slash_free :: "string \<Rightarrow> bool" where
  "slash_free s = (CHR ''/'' \<notin> set s)"

definition slash_free_fields :: "PhotosIdentifier \<Rightarrow> bool" where
  "slash_free_fields x =
     (slash_free (config_entry_id x)
      \<and> (case album_media_id x of None \<Rightarrow> True | Some a \<Rightarrow> slash_free a)
      \<and> (case photo_media_id x of None \<Rightarrow> True | Some p \<Rightarrow> slash_free p))"

section \<open>The catalog adapter\<close>

subsection \<open>Remote payloads and collaborators\<close>

text \<open>
  The remote payloads are dictionaries in the source. They are read at fixed keys only,
  so each is a record of those keys, with the types the data model gives them (pixel
  sizes are Python integers); \<^verbatim>\<open>.get("video")\<close> and \<^verbatim>\<open>.get("nextPageToken")\<close> are
  the two optional keys.
\<close>

record media_metadata =
  width :: int
  height :: int
  video :: "(string \<times> string) list option"

record media_item =
  item_id :: string
  filename :: string
  mimeType :: string
  baseUrl :: string
  mediaMetadata :: media_metadata

record list_result =
  mediaItems :: "media_item list"
  nextPageToken :: "string option"

text \<open>
  The remote client is the only effect of the module. The state that is passed along is
  the list of requests issued so far, oldest first; a client answers a request as a
  function of that history, which covers every deterministic remote, stateful or not.
  An answer \<open>Inl\<close> is the client raising \<^verbatim>\<open>GooglePhotosApiError\<close>.
\<close>

datatype request =
    List_media_items nat "string option"
  | Get_media_item string

record client =
  list_media_items :: "request list \<Rightarrow> nat \<Rightarrow> string option \<Rightarrow> GooglePhotosApiError + list_result"
  get_media_item :: "request list \<Rightarrow> string \<Rightarrow> GooglePhotosApiError + media_item"

text \<open>
  The host's registry is not part of the module: its two operations are parameters.
  Both take the domain as their first argument, as the calls in the source do.
\<close>

record config_entry =
  unique_id :: string
  entry_title :: string
  runtime_data :: client

record hass =
  async_loaded_entries :: "string \<Rightarrow> config_entry list"
  async_entry_for_domain_unique_id :: "string \<Rightarrow> string \<Rightarrow> config_entry option"

record MediaSourceItem =
  item_identifier :: string

record PlayMedia =
  url :: string
  mime_type :: string

datatype MediaClass =
  MediaClass_ALBUM | MediaClass_DIRECTORY | MediaClass_IMAGE | MediaClass_VIDEO

datatype MediaType =
  MediaType_IMAGE | MediaType_VIDEO

text \<open>
  The browse node, with the keyword arguments the module passes to its constructor;
  \<open>children_media_class\<close>, \<open>children\<close> and \<open>thumbnail\<close> default to \<open>None\<close>;
  the field \<^verbatim>\<open>identifier\<close> is \<open>node_identifier\<close>, the field \<^verbatim>\<open>title\<close> of a config entry
  is \<open>entry_title\<close>, and the key \<^verbatim>\<open>id\<close> of a media item is \<open>item_id\<close>.
  \<open>media_content_type\<close> receives a member of either enumeration.
\<close>

datatype BrowseMediaSource =
  BrowseMediaSource
    (domain: string)
    (node_identifier: "string option")
    (media_class: MediaClass)
    (media_content_type: "MediaClass + MediaType")
    (title: string)
    (can_play: bool)
    (can_expand: bool)
    (children_media_class: "MediaClass option")
    (children: "BrowseMediaSource list option")
    (thumbnail: "string option")

text \<open>The assignment \<^verbatim>\<open>source.children = [...]\<close>.\<close>

fun set_children :: "BrowseMediaSource \<Rightarrow> BrowseMediaSource list \<Rightarrow> BrowseMediaSource" where
  "set_children (BrowseMediaSource d i mc mct t cp ce cmc ch th) cs =
     BrowseMediaSource d i mc mct t cp ce cmc (Some cs) th"

text \<open>
  The constant \<^verbatim>\<open>DOMAIN\<close> is imported from \<^verbatim>\<open>const.py\<close>, which is not among the
  sources of this development; the name of the component's package is taken for its
  value. Every statement below is about \<open>DOMAIN\<close> itself and none depends on the value.
\<close>

definition DOMAIN :: string where
  "DOMAIN = ''google_photos''"

subsection \<open>URL derivation\<close>

text \<open>Python's \<^verbatim>\<open>str\<close> of an integer, as the f-string formats \<^verbatim>\<open>max_size\<close>.\<close>

definition digit_char :: "nat \<Rightarrow> char" where
  "digit_char d = ''0123456789'' ! d"

function str_nat :: "nat \<Rightarrow> string" where
  "str_nat n = (if n < 10 then [digit_char n] else str_nat (n div 10) @ [digit_char (n mod 10)])"
  by pat_completeness auto
termination
  by (relation "measure id") auto

definition str_int :: "int \<Rightarrow> string" where
  "str_int i = (if i < 0 then CHR ''-'' # str_nat (nat (- i)) else str_nat (nat i))"

definition media_url :: "media_item \<Rightarrow> int \<Rightarrow> string" where
  "media_url media_item max_size =
     (let w = width (mediaMetadata media_item);
          h = height (mediaMetadata media_item);
          key = (if h > w then ''h'' else ''w'')
      in baseUrl media_item @ ''='' @ key @ str_int max_size)"

definition video_url :: "media_item \<Rightarrow> string" where
  "video_url media_item = baseUrl media_item @ ''=dv''"

subsection \<open>Node builders\<close>

definition build_account :: "config_entry \<Rightarrow> PhotosIdentifier \<Rightarrow> BrowseMediaSource" where
  "build_account config_entry ident =
     BrowseMediaSource DOMAIN (Some (as_string ident)) MediaClass_DIRECTORY
       (Inl MediaClass_IMAGE) (entry_title config_entry) False True None None None"

definition build_album :: "string \<Rightarrow> PhotosIdentifier \<Rightarrow> BrowseMediaSource" where
  "build_album t ident =
     BrowseMediaSource DOMAIN (Some (as_string ident)) MediaClass_ALBUM
       (Inl MediaClass_ALBUM) t False True None None None"

definition build_media_item :: "PhotosIdentifier \<Rightarrow> media_item \<Rightarrow> BrowseMediaSource" where
  "build_media_item ident media_item =
     (let is_video = (video (mediaMetadata media_item) \<noteq> None) in
      BrowseMediaSource DOMAIN (Some (as_string ident))
        (if \<not> is_video then MediaClass_IMAGE else MediaClass_VIDEO)
        (Inr (if \<not> is_video then MediaType_IMAGE else MediaType_VIDEO))
        (filename media_item) is_video False None None
        (Some (media_url media_item THUMBNAIL_SIZE)))"

subsection \<open>Resolve and browse\<close>

definition async_config_entry :: "hass \<Rightarrow> string \<Rightarrow> exn + config_entry" where
  "async_config_entry h entry_id =
     (case async_entry_for_domain_unique_id h DOMAIN entry_id of
        None \<Rightarrow> Inl (BrowseError (Could_not_find_config_entry_for_identifier entry_id))
      | Some entry \<Rightarrow> Inr entry)"

text \<open>
  \<^verbatim>\<open>async_resolve_media\<close>. The result is paired with the request history after the call.
  A \<^verbatim>\<open>GooglePhotosApiError\<close> of \<^verbatim>\<open>get_media_item\<close> is not caught here.
\<close>

definition async_resolve_media ::
  "hass \<Rightarrow> MediaSourceItem \<Rightarrow> request list \<Rightarrow> (exn + PlayMedia) \<times> request list" where
  "async_resolve_media h item reqs =
     (case parse_identifier (item_identifier item) of
        Inl e \<Rightarrow> (Inl e, reqs)
      | Inr ident \<Rightarrow>
          (case photo_media_id ident of
             None \<Rightarrow>
               (Inl (BrowseError (Could_not_resolve_identifier_without_a_photo_media_id ident)),
                reqs)
           | Some photo \<Rightarrow>
               (case async_config_entry h (config_entry_id ident) of
                  Inl e \<Rightarrow> (Inl e, reqs)
                | Inr entry \<Rightarrow>
                    (let cl = runtime_data entry in
                     case get_media_item cl reqs photo of
                       Inl err \<Rightarrow> (Inl (Uncaught err), reqs @ [Get_media_item photo])
                     | Inr media_item \<Rightarrow>
                         (let is_video = (video (mediaMetadata media_item) \<noteq> None) in
                          (Inr \<lparr>url = (if is_video then video_url media_item
                                        else media_url media_item LARGE_IMAGE_SIZE),
                                 mime_type = mimeType media_item\<rparr>,
                           reqs @ [Get_media_item photo]))))))"

text \<open>
  The \<^verbatim>\<open>while\<close> loop of \<^verbatim>\<open>async_browse_media\<close> ("Fetch recent items"), with its
  variables \<^verbatim>\<open>media_items\<close> and \<^verbatim>\<open>page_token\<close> as arguments. Nothing in the loop
  bounds the number of rounds, so the function is partial: \<open>None\<close> is the loop that
  never leaves.
\<close>

partial_function (option) fetch_recent_items ::
  "client \<Rightarrow> request list \<Rightarrow> media_item list \<Rightarrow> string option
     \<Rightarrow> ((exn + media_item list) \<times> request list) option" where
  "fetch_recent_items cl reqs media_items page_token =
     (if length media_items < MAX_PHOTOS then
        (case list_media_items cl reqs PAGE_SIZE page_token of
           Inl err \<Rightarrow>
             Some (Inl (BrowseError (Error_listing_media_items err)),
                   reqs @ [List_media_items PAGE_SIZE page_token])
         | Inr result \<Rightarrow>
             (if nextPageToken result = None then
                Some (Inr (media_items @ mediaItems result),
                      reqs @ [List_media_items PAGE_SIZE page_token])
              else
                fetch_recent_items cl (reqs @ [List_media_items PAGE_SIZE page_token])
                  (media_items @ mediaItems result) (nextPageToken result)))
      else Some (Inr media_items, reqs))"

text \<open>
  \<^verbatim>\<open>async_browse_media\<close>: the empty identifier is the root; otherwise the identifier is
  parsed and the account looked up, and the dispatch is on \<open>album_media_id\<close> alone.
\<close>

definition async_browse_media ::
  "hass \<Rightarrow> MediaSourceItem \<Rightarrow> request list
     \<Rightarrow> ((exn + BrowseMediaSource) \<times> request list) option" where
  "async_browse_media h item reqs =
     (if item_identifier item = [] then
        Some (Inr (BrowseMediaSource DOMAIN None MediaClass_DIRECTORY (Inl MediaClass_IMAGE)
                     ''Google Photos'' False True (Some MediaClass_DIRECTORY)
                     (Some (map (\<lambda>entry. build_account entry
                                   \<lparr>config_entry_id = unique_id entry, album_media_id = None,
                                    photo_media_id = None\<rparr>)
                              (async_loaded_entries h DOMAIN)))
                     None),
              reqs)
      else
        (case parse_identifier (item_identifier item) of
           Inl e \<Rightarrow> Some (Inl e, reqs)
         | Inr ident \<Rightarrow>
             (case async_config_entry h (config_entry_id ident) of
                Inl e \<Rightarrow> Some (Inl e, reqs)
              | Inr entry \<Rightarrow>
                  (let cl = runtime_data entry in
                   case album_media_id ident of
                     None \<Rightarrow>
                       Some (Inr (set_children (build_account entry ident)
                                    [build_album RECENT_PHOTOS_TITLE
                                       \<lparr>config_entry_id = config_entry_id ident,
                                        album_media_id = Some RECENT_PHOTOS_ALBUM,
                                        photo_media_id = None\<rparr>]),
                             reqs)
                   | Some album \<Rightarrow>
                       (if album \<noteq> RECENT_PHOTOS_ALBUM then
                          Some (Inl (BrowseError (Unsupported_album ident)), reqs)
                        else
                          (case fetch_recent_items cl reqs [] None of
                             None \<Rightarrow> None
                           | Some (Inl e, reqs') \<Rightarrow> Some (Inl e, reqs')
                           | Some (Inr media_items, reqs') \<Rightarrow>
                               Some (Inr (set_children
                                            (build_account entry
                                               \<lparr>config_entry_id = unique_id entry,
                                                album_media_id = None,
                                                photo_media_id = None\<rparr>)
                                            (map (\<lambda>media_item. build_media_item
                                                    \<lparr>config_entry_id = config_entry_id ident,
                                                     album_media_id = None,
                                                     photo_media_id = Some (item_id media_item)\<rparr>
                                                    media_item)
                                               media_items)),
                                     reqs')))))))"

declare fetch_recent_items.simps [code]

text \<open>
  The same loop, round by round: \<open>loop_state cl reqs k\<close> is the request history and the
  values of \<^verbatim>\<open>media_items\<close> and \<^verbatim>\<open>page_token\<close> when the loop condition is evaluated
  after \<open>k\<close> complete rounds, and \<open>None\<close> when the loop has left before: a round goes
  round again when the condition held, the call returned, and the result carried a
  continuation token.
\<close>

primrec loop_state ::
  "client \<Rightarrow> request list \<Rightarrow> nat \<Rightarrow> (request list \<times> media_item list \<times> string option) option" where
  "loop_state cl reqs 0 = Some (reqs, [], None)"
| "loop_state cl reqs (Suc k) =
     (case loop_state cl reqs k of
        None \<Rightarrow> None
      | Some (reqs', media_items, page_token) \<Rightarrow>
          (if length media_items < MAX_PHOTOS then
             (case list_media_items cl reqs' PAGE_SIZE page_token of
                Inl err \<Rightarrow> None
              | Inr result \<Rightarrow>
                  (if nextPageToken result = None then None
                   else Some (reqs' @ [List_media_items PAGE_SIZE page_token],
                              media_items @ mediaItems result, nextPageToken result)))
           else None))"

section \<open>Example inputs\<close>

text \<open>
  Concrete payloads, clients and registries, on which the theorems below are
  instantiated. \<open>example_client\<close> serves two pages, the first with a continuation token;
  \<open>failing_client\<close> raises on its second page; \<open>endless_client\<close> answers every request
  with an empty page and a continuation token.
\<close>

definition example_photo :: media_item where
  "example_photo =
     \<lparr>item_id = ''1'', filename = ''a.jpg'', mimeType = ''image/jpeg'',
      baseUrl = ''http://img/1'',
      mediaMetadata = \<lparr>width = 100, height = 200, video = None\<rparr>\<rparr>"

definition example_video :: media_item where
  "example_video =
     \<lparr>item_id = ''2'', filename = ''b.mp4'', mimeType = ''video/mp4'',
      baseUrl = ''http://img/2'',
      mediaMetadata = \<lparr>width = 1920, height = 1080, video = Some [(''fps'', ''30'')]\<rparr>\<rparr>"

definition example_client :: client where
  "example_client =
     \<lparr>list_media_items = (\<lambda>reqs size token.
          if token = None
          then Inr \<lparr>mediaItems = [example_photo], nextPageToken = Some ''t2''\<rparr>
          else Inr \<lparr>mediaItems = [example_video], nextPageToken = None\<rparr>),
      get_media_item = (\<lambda>reqs i.
          if i = ''1'' then Inr example_photo
          else if i = ''2'' then Inr example_video
          else Inl (GooglePhotosApiError ''not found''))\<rparr>"

definition failing_client :: client where
  "failing_client =
     \<lparr>list_media_items = (\<lambda>reqs size token.
          if reqs = []
          then Inr \<lparr>mediaItems = [example_photo], nextPageToken = Some ''t2''\<rparr>
          else Inl (GooglePhotosApiError ''quota'')),
      get_media_item = (\<lambda>reqs i. Inl (GooglePhotosApiError ''quota''))\<rparr>"

definition endless_client :: client where
  "endless_client =
     \<lparr>list_media_items = (\<lambda>reqs size token.
          Inr \<lparr>mediaItems = [], nextPageToken = Some ''more''\<rparr>),
      get_media_item = (\<lambda>reqs i. Inl (GooglePhotosApiError ''not found''))\<rparr>"

definition example_entry :: config_entry where
  "example_entry = \<lparr>unique_id = ''acct'', entry_title = ''Home'', runtime_data = example_client\<rparr>"

definition failing_entry :: config_entry where
  "failing_entry = \<lparr>unique_id = ''broken'', entry_title = ''Work'', runtime_data = failing_client\<rparr>"

definition endless_entry :: config_entry where
  "endless_entry = \<lparr>unique_id = ''endless'', entry_title = ''Lab'', runtime_data = endless_client\<rparr>"

definition example_hass :: hass where
  "example_hass =
     \<lparr>async_loaded_entries = (\<lambda>d. [example_entry, failing_entry, endless_entry]),
      async_entry_for_domain_unique_id = (\<lambda>d u.
          if u = ''acct'' then Some example_entry
          else if u = ''broken'' then Some failing_entry
          else if u = ''endless'' then Some endless_entry
          else None)\<rparr>"

definition empty_hass :: hass where
  "empty_hass =
     \<lparr>async_loaded_entries = (\<lambda>d. []),
      async_entry_for_domain_unique_id = (\<lambda>d u. None)\<rparr>"

section \<open>Properties of the codec\<close>

lemma split_not_Nil: "split sep s \<noteq> []"
  by (induction s) auto

lemma length_split: "length (split sep s) = Suc (count_list s sep)"
proof (induction s)
  case Nil
  show ?case by simp
next
  case (Cons c cs)
  have "length (tl (split sep cs)) = count_list cs sep"
    using Cons.IH by simp
  then show ?case using Cons.IH by simp
qed

lemma split_no_sep: "sep \<notin> set s \<Longrightarrow> split sep s = [s]"
  by (induction s) auto

lemma split_append_sep:
  "sep \<notin> set a \<Longrightarrow> split sep (a @ sep # b) = a # split sep b"
  by (induction a) auto

lemma slash_free_count: "slash_free s \<longleftrightarrow> count_list s CHR ''/'' = 0"
  by (simp add: slash_free_def count_list_0_iff)

lemma count_as_string:
  "count_list (as_string x) CHR ''/'' =
     (case photo_media_id x of
        None \<Rightarrow>
          (case album_media_id x of
             None \<Rightarrow> count_list (config_entry_id x) CHR ''/''
           | Some a \<Rightarrow> 2 + count_list (config_entry_id x) CHR ''/'' + count_list a CHR ''/'')
      | Some p \<Rightarrow> 2 + count_list (config_entry_id x) CHR ''/'' + count_list p CHR ''/'')"
  by (auto simp: as_string_def PHOTO_SOURCE_IDENTIFIER_ALBUM_def PHOTO_SOURCE_IDENTIFIER_PHOTO_def
      split: option.splits)

text \<open>What a successful parse looks like: no delimiter and an account, or two and exactly
  one of the two references.\<close>

lemma parse_Inr_shape:
  assumes "parse_identifier s = Inr y"
  shows "(count_list s CHR ''/'' = 0 \<and> album_media_id y = None \<and> photo_media_id y = None)
       \<or> (count_list s CHR ''/'' = 2 \<and> (album_media_id y = None) \<noteq> (photo_media_id y = None))"
  using assms
  by (auto simp: parse_identifier_def Let_def length_split split: if_splits)

lemma parse_slash_free:
  "slash_free c \<Longrightarrow>
   parse_identifier c = Inr \<lparr>config_entry_id = c, album_media_id = None, photo_media_id = None\<rparr>"
  by (simp add: parse_identifier_def slash_free_def split_no_sep)

text \<open>
  Claim C1, as amended. For every valid identifier (at most one of the album and the item
  reference set) the string form is the account alone, the account with \<^verbatim>\<open>/a/\<close> and
  the album reference, or the account with \<^verbatim>\<open>/p/\<close> and the item reference, according
  to which optional field is set; and when none of its three fields contains the
  delimiter, parsing the string form gives the identifier back.
\<close>

theorem roundtrip_slash_free:
  assumes "valid_identifier x"
  shows "(slash_free_fields x \<longrightarrow> parse_identifier (as_string x) = Inr x)
       \<and> as_string x =
           (case (album_media_id x, photo_media_id x) of
              (None, None) \<Rightarrow> config_entry_id x
            | (Some album, None) \<Rightarrow> config_entry_id x @ ''/a/'' @ album
            | (_, Some photo) \<Rightarrow> config_entry_id x @ ''/p/'' @ photo)"
proof (cases x)
  case (fields c a p)
  show ?thesis
  proof (cases p)
    case None
    then show ?thesis
      using fields
      by (cases a)
        (simp_all add: slash_free_fields_def as_string_def parse_identifier_def Let_def
          split_append_sep split_no_sep slash_free_def PHOTO_SOURCE_IDENTIFIER_ALBUM_def
          PHOTO_SOURCE_IDENTIFIER_PHOTO_def)
  next
    case (Some photo)
    then have "a = None"
      using assms fields by (simp add: valid_identifier_def)
    then show ?thesis
      using fields Some
      by (simp add: slash_free_fields_def as_string_def parse_identifier_def Let_def
          split_append_sep split_no_sep slash_free_def PHOTO_SOURCE_IDENTIFIER_PHOTO_def)
  qed
qed

theorem roundtrip_slash_free_witness:
  "valid_identifier \<lparr>config_entry_id = ''acct'', album_media_id = Some ''recent'', photo_media_id = None\<rparr>
   \<and> slash_free_fields \<lparr>config_entry_id = ''acct'', album_media_id = Some ''recent'', photo_media_id = None\<rparr>
   \<and> parse_identifier ''acct/a/recent''
       = Inr \<lparr>config_entry_id = ''acct'', album_media_id = Some ''recent'', photo_media_id = None\<rparr>
   \<and> valid_identifier \<lparr>config_entry_id = ''acct'', album_media_id = None, photo_media_id = Some ''b/c''\<rparr>
   \<and> as_string \<lparr>config_entry_id = ''acct'', album_media_id = None, photo_media_id = Some ''b/c''\<rparr>
       = ''acct/p/b/c''"
proof -
  have v1: "valid_identifier \<lparr>config_entry_id = ''acct'', album_media_id = Some ''recent'',
              photo_media_id = None\<rparr>"
    by (simp add: valid_identifier_def)
  have s1: "slash_free_fields \<lparr>config_entry_id = ''acct'', album_media_id = Some ''recent'',
              photo_media_id = None\<rparr>"
    by (simp add: slash_free_fields_def slash_free_def)
  have v2: "valid_identifier \<lparr>config_entry_id = ''acct'', album_media_id = None,
              photo_media_id = Some ''b/c''\<rparr>"
    by (simp add: valid_identifier_def)
  show ?thesis
    using v1 s1 v2 roundtrip_slash_free [OF v1] roundtrip_slash_free [OF v2]
    by (simp add: as_string_def PHOTO_SOURCE_IDENTIFIER_ALBUM_def
        PHOTO_SOURCE_IDENTIFIER_PHOTO_def)
qed

text \<open>
  Claim C1, as stated, fails: the identifier of account \<^verbatim>\<open>acct\<close> with item reference
  \<^verbatim>\<open>b/c\<close> is valid, its string form \<^verbatim>\<open>acct/p/b/c\<close> has four parts, and parsing it raises.
\<close>

theorem roundtrip_counterexample:
  "valid_identifier \<lparr>config_entry_id = ''acct'', album_media_id = None, photo_media_id = Some ''b/c''\<rparr>
   \<and> parse_identifier
        (as_string \<lparr>config_entry_id = ''acct'', album_media_id = None, photo_media_id = Some ''b/c''\<rparr>)
       = Inl (BrowseError (Invalid_identifier ''acct/p/b/c''))"
  by (simp add: valid_identifier_def parse_identifier_def as_string_def
      PHOTO_SOURCE_IDENTIFIER_PHOTO_def)

text \<open>
  Claim C2. The comment on the markers gives an identifier exactly three forms, the
  account alone and the account with the marker \<^verbatim>\<open>a\<close> or \<^verbatim>\<open>p\<close> in the middle, and
  \<^verbatim>\<open>parse_identifier\<close> rejects a wrong number of parts and tests the marker \<^verbatim>\<open>p\<close>; the
  marker \<^verbatim>\<open>a\<close> it never tests. The string \<^verbatim>\<open>x/z/y\<close> has three parts and a middle part
  that is neither marker, and it is not rejected: it is decoded as the album \<^verbatim>\<open>y\<close> of the
  account \<^verbatim>\<open>x\<close>, an identifier whose string form is the other string \<^verbatim>\<open>x/a/y\<close>.
\<close>

theorem parse_identifier_other_marker_accepted:
  "split CHR ''/'' ''x/z/y'' = [''x'', ''z'', ''y'']
   \<and> parse_identifier ''x/z/y''
       = Inr \<lparr>config_entry_id = ''x'', album_media_id = Some ''y'', photo_media_id = None\<rparr>
   \<and> as_string \<lparr>config_entry_id = ''x'', album_media_id = Some ''y'', photo_media_id = None\<rparr>
       = ''x/a/y''"
  by (simp add: parse_identifier_def as_string_def PHOTO_SOURCE_IDENTIFIER_PHOTO_def
      PHOTO_SOURCE_IDENTIFIER_ALBUM_def)

text \<open>
  Claim C10. The codec does not escape the delimiter: an identifier with a \<^verbatim>\<open>/\<close> in its
  account, album or item reference never comes back from its string form, whether or
  not it is valid; parsing raises or returns another identifier.
\<close>

theorem roundtrip_needs_slash_free:
  assumes "\<not> slash_free_fields x"
  shows "parse_identifier (as_string x) \<noteq> Inr x"
proof
  assume "parse_identifier (as_string x) = Inr x"
  from parse_Inr_shape [OF this] have "slash_free_fields x"
    by (auto simp: count_as_string slash_free_fields_def slash_free_count split: option.splits)
  with assms show False by simp
qed

theorem roundtrip_needs_slash_free_witness:
  "\<not> slash_free_fields \<lparr>config_entry_id = ''acct'', album_media_id = Some ''x/y'', photo_media_id = None\<rparr>
   \<and> parse_identifier
        (as_string \<lparr>config_entry_id = ''acct'', album_media_id = Some ''x/y'', photo_media_id = None\<rparr>)
       \<noteq> Inr \<lparr>config_entry_id = ''acct'', album_media_id = Some ''x/y'', photo_media_id = None\<rparr>"
  using roundtrip_needs_slash_free
    [of "\<lparr>config_entry_id = ''acct'', album_media_id = Some ''x/y'', photo_media_id = None\<rparr>"]
  by (simp add: slash_free_fields_def slash_free_def)

section \<open>Properties of resolve\<close>

lemma str_int_2048: "str_int 2048 = ''2048''"
  by (simp add: str_int_def digit_char_def)

lemma str_int_256: "str_int 256 = ''256''"
  by (simp add: str_int_def digit_char_def)

text \<open>
  Claim C4. When the identifier decodes to an account with an item reference, the account
  is found and \<^verbatim>\<open>get_media_item\<close> returns an item, resolve issues that one request and
  returns the item's declared MIME type with this URL: the base URL followed by \<^verbatim>\<open>=dv\<close>
  when the item has video metadata, and otherwise by \<^verbatim>\<open>=h2048\<close> when its height is
  greater than its width and by \<^verbatim>\<open>=w2048\<close> when it is not.
\<close>

theorem resolve_item_url:
  assumes "parse_identifier (item_identifier item) = Inr ident"
    and "photo_media_id ident = Some photo"
    and "async_entry_for_domain_unique_id h DOMAIN (config_entry_id ident) = Some entry"
    and "get_media_item (runtime_data entry) reqs photo = Inr m"
  shows "async_resolve_media h item reqs =
    (Inr \<lparr>url = (if video (mediaMetadata m) \<noteq> None then baseUrl m @ ''=dv''
                 else if height (mediaMetadata m) > width (mediaMetadata m)
                 then baseUrl m @ ''=h2048''
                 else baseUrl m @ ''=w2048''),
          mime_type = mimeType m\<rparr>,
     reqs @ [Get_media_item photo])"
  using assms
  by (simp add: async_resolve_media_def async_config_entry_def video_url_def media_url_def
      LARGE_IMAGE_SIZE_def str_int_2048)

theorem resolve_item_url_witness:
  "parse_identifier (item_identifier \<lparr>item_identifier = ''acct/p/1''\<rparr>)
     = Inr \<lparr>config_entry_id = ''acct'', album_media_id = None, photo_media_id = Some ''1''\<rparr>
   \<and> async_entry_for_domain_unique_id example_hass DOMAIN ''acct'' = Some example_entry
   \<and> get_media_item (runtime_data example_entry) [] ''1'' = Inr example_photo
   \<and> async_resolve_media example_hass \<lparr>item_identifier = ''acct/p/1''\<rparr> []
       = (Inr \<lparr>url = ''http://img/1=h2048'', mime_type = ''image/jpeg''\<rparr>, [Get_media_item ''1''])"
proof -
  have p: "parse_identifier (item_identifier \<lparr>item_identifier = ''acct/p/1''\<rparr>)
     = Inr \<lparr>config_entry_id = ''acct'', album_media_id = None, photo_media_id = Some ''1''\<rparr>"
    by (simp add: parse_identifier_def PHOTO_SOURCE_IDENTIFIER_PHOTO_def)
  have e: "async_entry_for_domain_unique_id example_hass DOMAIN
             (config_entry_id \<lparr>config_entry_id = ''acct'', album_media_id = None,
                               photo_media_id = Some ''1''\<rparr>) = Some example_entry"
    by (simp add: example_hass_def)
  have g: "get_media_item (runtime_data example_entry) [] ''1'' = Inr example_photo"
    by (simp add: example_entry_def example_client_def)
  show ?thesis
    using p e g resolve_item_url [OF p _ e g]
    by (simp add: example_photo_def)
qed

text \<open>
  Claim C8. When the identifier decodes to a shape without an item reference, resolve
  raises the validation error of that identifier, whatever the registry holds and
  whatever the clients would answer, and the request history is unchanged: the account
  is not looked up and nothing is sent.
\<close>

theorem resolve_without_item:
  assumes "parse_identifier (item_identifier item) = Inr ident"
    and "photo_media_id ident = None"
  shows "async_resolve_media h item reqs =
    (Inl (BrowseError (Could_not_resolve_identifier_without_a_photo_media_id ident)), reqs)"
  using assms by (simp add: async_resolve_media_def)

theorem resolve_without_item_witness:
  "parse_identifier (item_identifier \<lparr>item_identifier = ''acct/a/recent''\<rparr>)
     = Inr \<lparr>config_entry_id = ''acct'', album_media_id = Some ''recent'', photo_media_id = None\<rparr>
   \<and> async_resolve_media empty_hass \<lparr>item_identifier = ''acct/a/recent''\<rparr> []
       = (Inl (BrowseError (Could_not_resolve_identifier_without_a_photo_media_id
                \<lparr>config_entry_id = ''acct'', album_media_id = Some ''recent'',
                 photo_media_id = None\<rparr>)), [])"
proof -
  have p: "parse_identifier (item_identifier \<lparr>item_identifier = ''acct/a/recent''\<rparr>)
     = Inr \<lparr>config_entry_id = ''acct'', album_media_id = Some ''recent'', photo_media_id = None\<rparr>"
    by (simp add: parse_identifier_def PHOTO_SOURCE_IDENTIFIER_PHOTO_def)
  show ?thesis
    using p resolve_without_item [OF p, of empty_hass "[]"] by simp
qed

section \<open>Properties of browse\<close>

subsection \<open>The pagination loop\<close>

text \<open>The four ways through one round of the loop.\<close>

lemma fetch_done:
  "\<not> length items < MAX_PHOTOS \<Longrightarrow> fetch_recent_items cl rs items tok = Some (Inr items, rs)"
  by (subst fetch_recent_items.simps) simp

lemma fetch_err:
  "length items < MAX_PHOTOS \<Longrightarrow> list_media_items cl rs PAGE_SIZE tok = Inl err \<Longrightarrow>
   fetch_recent_items cl rs items tok =
     Some (Inl (BrowseError (Error_listing_media_items err)), rs @ [List_media_items PAGE_SIZE tok])"
  by (subst fetch_recent_items.simps) simp

lemma fetch_last:
  "length items < MAX_PHOTOS \<Longrightarrow> list_media_items cl rs PAGE_SIZE tok = Inr res \<Longrightarrow>
   nextPageToken res = None \<Longrightarrow>
   fetch_recent_items cl rs items tok =
     Some (Inr (items @ mediaItems res), rs @ [List_media_items PAGE_SIZE tok])"
  by (subst fetch_recent_items.simps) simp

lemma fetch_more:
  "length items < MAX_PHOTOS \<Longrightarrow> list_media_items cl rs PAGE_SIZE tok = Inr res \<Longrightarrow>
   nextPageToken res \<noteq> None \<Longrightarrow>
   fetch_recent_items cl rs items tok =
     fetch_recent_items cl (rs @ [List_media_items PAGE_SIZE tok]) (items @ mediaItems res)
       (nextPageToken res)"
  by (subst fetch_recent_items.simps) auto

text \<open>A loop that has got to round \<open>k\<close> returns what it returns from there, and it has
  issued one request per round, each a page request of the fixed size.\<close>

lemma loop_state_fetch:
  "loop_state cl reqs k = Some (rs, items, tok) \<Longrightarrow>
   fetch_recent_items cl reqs [] None = fetch_recent_items cl rs items tok"
proof (induction k arbitrary: rs items tok)
  case 0
  then show ?case by simp
next
  case (Suc k)
  then show ?case
    by (auto simp: fetch_more split: option.splits sum.splits if_splits)
qed

lemma loop_state_length:
  "loop_state cl reqs k = Some (rs, items, tok) \<Longrightarrow> 
   \<exists>new. rs = reqs @ new \<and> length new = k \<and> (\<forall>q \<in> set new. \<exists>t. q = List_media_items PAGE_SIZE t)"
proof (induction k arbitrary: rs items tok)
  case 0
  then show ?case by simp
next
  case (Suc k)
  then show ?case
    by (fastforce split: option.splits sum.splits if_splits)
qed

text \<open>
  Termination. If, from some number \<open>N\<close> of earlier requests on, a page with a continuation
  token is never empty, every round either shortens the distance to \<open>N\<close> or brings the
  item count closer to the threshold; the sum of the two distances bounds the number of
  requests.
\<close>

lemma fetch_terminates:
  assumes progress: "\<forall>rs t res. N \<le> length rs
            \<and> list_media_items cl rs PAGE_SIZE t = Inr res
            \<and> nextPageToken res \<noteq> None \<longrightarrow> mediaItems res \<noteq> []"
  shows "\<exists>r new. fetch_recent_items cl rs items tok = Some (r, rs @ new)
           \<and> length new \<le> (N - length rs) + (MAX_PHOTOS - length items)
           \<and> (\<forall>q \<in> set new. \<exists>t. q = List_media_items PAGE_SIZE t)"
proof (induction "(N - length rs) + (MAX_PHOTOS - length items)" arbitrary: rs items tok rule: less_induct)
  case less
  show ?case
  proof (cases "length items < MAX_PHOTOS")
    case False
    then show ?thesis by (simp add: fetch_done)
  next
    case small: True
    show ?thesis
    proof (cases "list_media_items cl rs PAGE_SIZE tok")
      case (Inl err)
      have "length [List_media_items PAGE_SIZE tok] \<le> (N - length rs) + (MAX_PHOTOS - length items)"
        using small by simp
      then show ?thesis using fetch_err [OF small Inl] by force
    next
      case (Inr res)
      show ?thesis
      proof (cases "nextPageToken res = None")
        case True
        have "length [List_media_items PAGE_SIZE tok] \<le> (N - length rs) + (MAX_PHOTOS - length items)"
          using small by simp
        then show ?thesis using fetch_last [OF small Inr True] by force
      next
        case False
        let ?rs = "rs @ [List_media_items PAGE_SIZE tok]"
        let ?items = "items @ mediaItems res"
        have dec: "(N - length ?rs) + (MAX_PHOTOS - length ?items) < (N - length rs) + (MAX_PHOTOS - length items)"
        proof (cases "N \<le> length rs")
          case True
          from progress True Inr False have "mediaItems res \<noteq> []" by blast
          then have "0 < length (mediaItems res)" by simp
          then show ?thesis using small True by (simp del: length_greater_0_conv)
        next
          case False
          then show ?thesis by simp
        qed
        from less [OF dec] obtain r new where
          f: "fetch_recent_items cl ?rs ?items (nextPageToken res) = Some (r, ?rs @ new)"
          and l: "length new \<le> (N - length ?rs) + (MAX_PHOTOS - length ?items)"
          and q: "\<forall>q \<in> set new. \<exists>t. q = List_media_items PAGE_SIZE t"
          by blast
        have "fetch_recent_items cl rs items tok = Some (r, rs @ (List_media_items PAGE_SIZE tok # new))"
          using fetch_more [OF small Inr False] f by simp
        moreover have "length (List_media_items PAGE_SIZE tok # new) \<le> (N - length rs) + (MAX_PHOTOS - length items)"
          using l dec by simp
        moreover have "\<forall>q \<in> set (List_media_items PAGE_SIZE tok # new). \<exists>t. q = List_media_items PAGE_SIZE t"
          using q by simp
        ultimately show ?thesis by blast
      qed
    qed
  qed
qed

text \<open>
  Against \<open>endless_client\<close> no approximation of the loop ever returns from an empty
  item list: the loop does not terminate.
\<close>

lemma endless_diverges_aux:
  assumes "fetch_recent_items cl rs items tok = Some y"
  shows "\<not> (cl = endless_client \<and> items = [])"
proof (rule fetch_recent_items.raw_induct
    [where P = "\<lambda>cl rs items tok y. \<not> (cl = endless_client \<and> items = [])", OF _ assms])
  fix fetch cl rs items tok y
  assume IH: "\<And>cl rs items tok y. fetch cl rs items tok = Some y \<Longrightarrow> \<not> (cl = endless_client \<and> items = [])"
    and body: "(if length items < MAX_PHOTOS then
        (case list_media_items cl rs PAGE_SIZE tok of
           Inl err \<Rightarrow>
             Some (Inl (BrowseError (Error_listing_media_items err)),
                   rs @ [List_media_items PAGE_SIZE tok])
         | Inr result \<Rightarrow>
             (if nextPageToken result = None then
                Some (Inr (items @ mediaItems result),
                      rs @ [List_media_items PAGE_SIZE tok])
              else
                fetch cl (rs @ [List_media_items PAGE_SIZE tok])
                  (items @ mediaItems result) (nextPageToken result)))
      else Some (Inr items, rs)) = Some y"
  show "\<not> (cl = endless_client \<and> items = [])"
  proof
    assume a: "cl = endless_client \<and> items = []"
    with body have "fetch endless_client (rs @ [List_media_items PAGE_SIZE tok]) [] (Some ''more'') = Some y"
      by (simp add: endless_client_def MAX_PHOTOS_def)
    from IH [OF this] show False by simp
  qed
qed

lemma endless_diverges: "fetch_recent_items endless_client rs [] tok = None"
  using endless_diverges_aux [of endless_client rs "[]" tok]
  by (cases "fetch_recent_items endless_client rs [] tok") auto


subsection \<open>Parsed identifiers\<close>

text \<open>The parts of a split, put back together with the separator, are the string.\<close>

lemma split_Cons_Cons:
  "split sep s = p # q # ps \<Longrightarrow> \<exists>rest. s = p @ sep # rest \<and> split sep rest = q # ps"
proof (induction s arbitrary: p)
  case Nil
  then show ?case by simp
next
  case (Cons c cs)
  show ?case
  proof (cases "c = sep")
    case True
    then show ?thesis using Cons.prems by auto
  next
    case False
    then have "split sep cs = tl p # q # ps" and "p = c # tl p"
      using Cons.prems split_not_Nil [of sep cs]
      by (cases "split sep cs"; auto)+
    from Cons.IH [OF this(1)] this(2) show ?thesis
      by (metis append_Cons)
  qed
qed

lemma split_single: "split sep s = [p] \<Longrightarrow> s = p"
proof (induction s arbitrary: p)
  case Nil
  then show ?case by simp
next
  case (Cons c cs)
  then show ?case
    using split_not_Nil [of sep cs]
    by (cases "split sep cs") (auto split: if_splits)
qed

lemma split_three_parts:
  assumes "length (split sep s) = 3"
  shows "s = split sep s ! 0 @ sep # split sep s ! 1 @ sep # split sep s ! 2"
proof -
  from assms obtain a b c where abc: "split sep s = [a, b, c]"
    by (auto simp: numeral_3_eq_3 length_Suc_conv)
  from split_Cons_Cons [OF abc] obtain r1 where r1: "s = a @ sep # r1" "split sep r1 = [b, c]"
    by blast
  from split_Cons_Cons [OF r1(2)] obtain r2 where r2: "r1 = b @ sep # r2" "split sep r2 = [c]"
    by blast
  from split_single [OF r2(2)] r1 r2 abc show ?thesis by simp
qed

lemma parse_photo_as_string:
  assumes "parse_identifier s = Inr ident" and "photo_media_id ident = Some photo"
  shows "as_string ident = s"
proof -
  have len: "length (split CHR ''/'' s) = 3"
    using assms by (auto simp: parse_identifier_def Let_def split: if_splits)
  from split_three_parts [OF len] show ?thesis
    using assms len
    by (auto simp: parse_identifier_def Let_def as_string_def PHOTO_SOURCE_IDENTIFIER_PHOTO_def
        split: if_splits)
qed

lemma parse_not_empty:
  assumes "parse_identifier s = Inr ident"
    and "album_media_id ident \<noteq> None \<or> photo_media_id ident \<noteq> None"
  shows "s \<noteq> []"
  using parse_Inr_shape [OF assms(1)] assms(2) by auto

lemma parse_account_only:
  assumes "parse_identifier s = Inr ident"
    and "album_media_id ident = None" and "photo_media_id ident = None"
  shows "config_entry_id ident = s \<and> slash_free s"
proof -
  have "count_list s CHR ''/'' = 0"
    using parse_Inr_shape [OF assms(1)] assms(2,3) by auto
  then have sf: "slash_free s" by (simp add: slash_free_count)
  from parse_slash_free [OF sf] assms(1) show ?thesis using sf by auto
qed

subsection \<open>The branches of browse\<close>

lemma browse_account_branch:
  assumes "item_identifier item \<noteq> []"
    and "parse_identifier (item_identifier item) = Inr ident"
    and "album_media_id ident = None"
    and "async_entry_for_domain_unique_id h DOMAIN (config_entry_id ident) = Some entry"
  shows "async_browse_media h item reqs =
     Some (Inr (BrowseMediaSource DOMAIN (Some (as_string ident)) MediaClass_DIRECTORY
                  (Inl MediaClass_IMAGE) (entry_title entry) False True None
                  (Some [BrowseMediaSource DOMAIN (Some (config_entry_id ident @ ''/a/recent''))
                           MediaClass_ALBUM (Inl MediaClass_ALBUM) ''Recent Photos'' False True
                           None None None])
                  None), reqs)"
  using assms
  by (simp add: async_browse_media_def async_config_entry_def build_account_def build_album_def
      as_string_def RECENT_PHOTOS_TITLE_def RECENT_PHOTOS_ALBUM_def PHOTO_SOURCE_IDENTIFIER_ALBUM_def)

lemma browse_lookup_fails:
  assumes "item_identifier item \<noteq> []"
    and "parse_identifier (item_identifier item) = Inr ident"
    and "async_entry_for_domain_unique_id h DOMAIN (config_entry_id ident) = None"
  shows "async_browse_media h item reqs =
     Some (Inl (BrowseError (Could_not_find_config_entry_for_identifier (config_entry_id ident))), reqs)"
  using assms by (simp add: async_browse_media_def async_config_entry_def)

lemma browse_recent_branch:
  assumes "parse_identifier (item_identifier item) = Inr ident"
    and "album_media_id ident = Some ''recent''"
    and "async_entry_for_domain_unique_id h DOMAIN (config_entry_id ident) = Some entry"
  shows "async_browse_media h item reqs =
     (case fetch_recent_items (runtime_data entry) reqs [] None of
        None \<Rightarrow> None
      | Some (Inl e, rs) \<Rightarrow> Some (Inl e, rs)
      | Some (Inr media_items, rs) \<Rightarrow>
          Some (Inr (set_children
                       (build_account entry
                          \<lparr>config_entry_id = unique_id entry, album_media_id = None,
                           photo_media_id = None\<rparr>)
                       (map (\<lambda>media_item. build_media_item
                               \<lparr>config_entry_id = config_entry_id ident, album_media_id = None,
                                photo_media_id = Some (item_id media_item)\<rparr> media_item)
                          media_items)), rs))"
proof -
  have "item_identifier item \<noteq> []"
    using parse_not_empty [OF assms(1)] assms(2) by simp
  then show ?thesis
    using assms
    by (simp add: async_browse_media_def async_config_entry_def RECENT_PHOTOS_ALBUM_def)
qed

subsection \<open>The claims on browse\<close>

text \<open>
  Claim C6. A browse of a non-empty identifier that decodes to an account alone, whose
  account is found, returns a node with exactly one child and sends nothing to the
  remote: the child is an album node titled "Recent Photos", not playable, expandable,
  whose identifier is the account followed by \<^verbatim>\<open>/a/recent\<close>, a string that decodes to
  the album \<^verbatim>\<open>recent\<close> of that account. (The empty identifier is the root listing and
  looks no account up.)
\<close>

theorem browse_account_only:
  assumes "item_identifier item \<noteq> []"
    and "parse_identifier (item_identifier item) = Inr ident"
    and "album_media_id ident = None" and "photo_media_id ident = None"
    and "async_entry_for_domain_unique_id h DOMAIN (config_entry_id ident) = Some entry"
  shows "\<exists>node child. async_browse_media h item reqs = Some (Inr node, reqs)
       \<and> children node = Some [child]
       \<and> media_class child = MediaClass_ALBUM
       \<and> title child = ''Recent Photos''
       \<and> node_identifier child = Some (item_identifier item @ ''/a/recent'')
       \<and> parse_identifier (item_identifier item @ ''/a/recent'')
           = Inr \<lparr>config_entry_id = item_identifier item, album_media_id = Some ''recent'',
                  photo_media_id = None\<rparr>
       \<and> \<not> can_play child \<and> can_expand child"
proof -
  from parse_account_only [OF assms(2,3,4)]
  have c: "config_entry_id ident = item_identifier item" and sf: "slash_free (item_identifier item)"
    by simp_all
  have "parse_identifier (item_identifier item @ ''/a/recent'')
           = Inr \<lparr>config_entry_id = item_identifier item, album_media_id = Some ''recent'',
                  photo_media_id = None\<rparr>"
    using sf
    by (simp add: parse_identifier_def Let_def split_append_sep slash_free_def
        PHOTO_SOURCE_IDENTIFIER_PHOTO_def)
  then show ?thesis
    using browse_account_branch [OF assms(1,2,3,5), of reqs] c by simp
qed

theorem browse_account_only_witness:
  "item_identifier \<lparr>item_identifier = ''acct''\<rparr> \<noteq> []
   \<and> parse_identifier (item_identifier \<lparr>item_identifier = ''acct''\<rparr>)
       = Inr \<lparr>config_entry_id = ''acct'', album_media_id = None, photo_media_id = None\<rparr>
   \<and> async_entry_for_domain_unique_id example_hass DOMAIN ''acct'' = Some example_entry
   \<and> (\<exists>node child. async_browse_media example_hass \<lparr>item_identifier = ''acct''\<rparr> []
                       = Some (Inr node, [])
         \<and> children node = Some [child]
         \<and> title child = ''Recent Photos''
         \<and> node_identifier child = Some ''acct/a/recent''
         \<and> \<not> can_play child \<and> can_expand child)"
proof -
  have n: "item_identifier \<lparr>item_identifier = ''acct''\<rparr> \<noteq> []" by simp
  have p: "parse_identifier (item_identifier \<lparr>item_identifier = ''acct''\<rparr>)
       = Inr \<lparr>config_entry_id = ''acct'', album_media_id = None, photo_media_id = None\<rparr>"
    by (simp add: parse_identifier_def)
  have e: "async_entry_for_domain_unique_id example_hass DOMAIN
             (config_entry_id \<lparr>config_entry_id = ''acct'', album_media_id = None,
                               photo_media_id = None\<rparr>) = Some example_entry"
    by (simp add: example_hass_def)
  from browse_account_only [OF n p _ _ e, of "[]"]
  have "\<exists>node child. async_browse_media example_hass \<lparr>item_identifier = ''acct''\<rparr> []
                       = Some (Inr node, [])
         \<and> children node = Some [child]
         \<and> title child = ''Recent Photos''
         \<and> node_identifier child = Some ''acct/a/recent''
         \<and> \<not> can_play child \<and> can_expand child"
    by auto
  then show ?thesis using n p e by simp
qed

text \<open>
  Claim C9, as amended. A browse whose identifier decodes to an account with an album
  reference other than \<^verbatim>\<open>recent\<close> fails before any remote call: the request history is
  unchanged. The account is looked up first, so the error is the not-found error when
  the account is unknown, and the unsupported-album error when it is found.
\<close>

theorem browse_unsupported_album:
  assumes "parse_identifier (item_identifier item) = Inr ident"
    and "album_media_id ident = Some album"
    and "album \<noteq> ''recent''"
  shows "async_browse_media h item reqs =
     (case async_entry_for_domain_unique_id h DOMAIN (config_entry_id ident) of
        None \<Rightarrow>
          Some (Inl (BrowseError (Could_not_find_config_entry_for_identifier
                                   (config_entry_id ident))), reqs)
      | Some entry \<Rightarrow> Some (Inl (BrowseError (Unsupported_album ident)), reqs))"
proof -
  have ne: "item_identifier item \<noteq> []"
    using parse_not_empty [OF assms(1)] assms(2) by simp
  then show ?thesis
    using assms
    by (simp add: async_browse_media_def async_config_entry_def RECENT_PHOTOS_ALBUM_def
        split: option.splits)
qed

theorem browse_unsupported_album_witness:
  "parse_identifier (item_identifier \<lparr>item_identifier = ''acct/a/other''\<rparr>)
     = Inr \<lparr>config_entry_id = ''acct'', album_media_id = Some ''other'', photo_media_id = None\<rparr>
   \<and> ''other'' \<noteq> ''recent''
   \<and> async_browse_media example_hass \<lparr>item_identifier = ''acct/a/other''\<rparr> []
       = Some (Inl (BrowseError (Unsupported_album
            \<lparr>config_entry_id = ''acct'', album_media_id = Some ''other'', photo_media_id = None\<rparr>)), [])"
proof -
  have p: "parse_identifier (item_identifier \<lparr>item_identifier = ''acct/a/other''\<rparr>)
     = Inr \<lparr>config_entry_id = ''acct'', album_media_id = Some ''other'', photo_media_id = None\<rparr>"
    by (simp add: parse_identifier_def PHOTO_SOURCE_IDENTIFIER_PHOTO_def)
  have o: "''other'' \<noteq> ''recent''" by simp
  show ?thesis
    using p o browse_unsupported_album [OF p _ o, of example_hass "[]"]
    by (simp add: example_hass_def)
qed

text \<open>
  Claim C9, as stated, fails: for the unknown account \<^verbatim>\<open>nobody\<close> the browse of the album
  \<^verbatim>\<open>other\<close> fails with the not-found error, not with the unsupported-album error.
\<close>

theorem browse_unsupported_album_counterexample:
  "parse_identifier ''nobody/a/other''
     = Inr \<lparr>config_entry_id = ''nobody'', album_media_id = Some ''other'', photo_media_id = None\<rparr>
   \<and> async_browse_media empty_hass \<lparr>item_identifier = ''nobody/a/other''\<rparr> []
       = Some (Inl (BrowseError (Could_not_find_config_entry_for_identifier ''nobody'')), [])"
  by (simp add: async_browse_media_def parse_identifier_def PHOTO_SOURCE_IDENTIFIER_PHOTO_def
      async_config_entry_def empty_hass_def)

text \<open>
  Claim C3, as amended. A browse whose identifier decodes to an account with an item
  reference is not rejected for its shape: the dispatch looks at the album reference
  only, which is absent, so the request takes the account branch. It fails, with the
  not-found error, only when the account is unknown; when the account is found it
  returns the account's directory node, carrying the item identifier's own string as its
  identifier, with the single "Recent Photos" album child, and sends nothing to the
  remote.
\<close>

theorem browse_item_identifier:
  assumes "parse_identifier (item_identifier item) = Inr ident"
    and "photo_media_id ident = Some photo"
  shows "async_browse_media h item reqs =
     (case async_entry_for_domain_unique_id h DOMAIN (config_entry_id ident) of
        None \<Rightarrow>
          Some (Inl (BrowseError (Could_not_find_config_entry_for_identifier
                                   (config_entry_id ident))), reqs)
      | Some entry \<Rightarrow>
          Some (Inr (BrowseMediaSource DOMAIN (Some (item_identifier item)) MediaClass_DIRECTORY
                       (Inl MediaClass_IMAGE) (entry_title entry) False True None
                       (Some [BrowseMediaSource DOMAIN (Some (config_entry_id ident @ ''/a/recent''))
                                MediaClass_ALBUM (Inl MediaClass_ALBUM) ''Recent Photos'' False True
                                None None None])
                       None), reqs))"
proof -
  have ne: "item_identifier item \<noteq> []"
    using parse_not_empty [OF assms(1)] assms(2) by simp
  have alb: "album_media_id ident = None"
    using parse_Inr_shape [OF assms(1)] assms(2) by auto
  show ?thesis
  proof (cases "async_entry_for_domain_unique_id h DOMAIN (config_entry_id ident)")
    case None
    then show ?thesis using browse_lookup_fails [OF ne assms(1) None] by simp
  next
    case (Some entry)
    then show ?thesis
      using browse_account_branch [OF ne assms(1) alb Some] parse_photo_as_string [OF assms]
      by simp
  qed
qed

theorem browse_item_identifier_witness:
  "parse_identifier (item_identifier \<lparr>item_identifier = ''acct/p/1''\<rparr>)
     = Inr \<lparr>config_entry_id = ''acct'', album_media_id = None, photo_media_id = Some ''1''\<rparr>
   \<and> async_browse_media example_hass \<lparr>item_identifier = ''acct/p/1''\<rparr> []
       = Some (Inr (BrowseMediaSource DOMAIN (Some ''acct/p/1'') MediaClass_DIRECTORY
                      (Inl MediaClass_IMAGE) ''Home'' False True None
                      (Some [BrowseMediaSource DOMAIN (Some ''acct/a/recent'') MediaClass_ALBUM
                               (Inl MediaClass_ALBUM) ''Recent Photos'' False True None None None])
                      None), [])
   \<and> async_browse_media empty_hass \<lparr>item_identifier = ''acct/p/1''\<rparr> []
       = Some (Inl (BrowseError (Could_not_find_config_entry_for_identifier ''acct'')), [])"
proof -
  have p: "parse_identifier (item_identifier \<lparr>item_identifier = ''acct/p/1''\<rparr>)
     = Inr \<lparr>config_entry_id = ''acct'', album_media_id = None, photo_media_id = Some ''1''\<rparr>"
    by (simp add: parse_identifier_def PHOTO_SOURCE_IDENTIFIER_PHOTO_def)
  show ?thesis
    using p browse_item_identifier [OF p, of "''1''" example_hass "[]"]
      browse_item_identifier [OF p, of "''1''" empty_hass "[]"]
    by (simp add: example_hass_def empty_hass_def example_entry_def)
qed

text \<open>
  Claim C3, as stated, fails: \<^verbatim>\<open>acct/p/2\<close> decodes to an item of the account \<^verbatim>\<open>acct\<close>,
  and browsing it returns a node tree.
\<close>

theorem browse_item_identifier_counterexample:
  "parse_identifier ''acct/p/2''
     = Inr \<lparr>config_entry_id = ''acct'', album_media_id = None, photo_media_id = Some ''2''\<rparr>
   \<and> async_browse_media example_hass \<lparr>item_identifier = ''acct/p/2''\<rparr> []
       = Some (Inr (BrowseMediaSource DOMAIN (Some ''acct/p/2'') MediaClass_DIRECTORY
                      (Inl MediaClass_IMAGE) ''Home'' False True None
                      (Some [BrowseMediaSource DOMAIN (Some ''acct/a/recent'')
                               MediaClass_ALBUM (Inl MediaClass_ALBUM) ''Recent Photos''
                               False True None None None])
                      None), [])"
  by (simp add: async_browse_media_def parse_identifier_def PHOTO_SOURCE_IDENTIFIER_PHOTO_def
      async_config_entry_def example_hass_def example_entry_def build_account_def build_album_def
      as_string_def RECENT_PHOTOS_TITLE_def RECENT_PHOTOS_ALBUM_def
      PHOTO_SOURCE_IDENTIFIER_ALBUM_def)

text \<open>
  Claim C7. In a browse of the recent album of a found account, if the loop gets to some
  round (\<open>k\<close> rounds done, fewer than 50 items so far, so that the page request of the
  round is issued) and that request raises the API error \<open>err\<close>, then the browse returns:
  its result is the one browse error that wraps \<open>err\<close>, no node and so no child list, and
  the failing request is the last one issued.
\<close>

theorem browse_recent_listing_error:
  assumes "parse_identifier (item_identifier item) = Inr ident"
    and "album_media_id ident = Some ''recent''"
    and "async_entry_for_domain_unique_id h DOMAIN (config_entry_id ident) = Some entry"
    and "loop_state (runtime_data entry) reqs k = Some (rs, media_items, page_token)"
    and "length media_items < MAX_PHOTOS"
    and "list_media_items (runtime_data entry) rs PAGE_SIZE page_token = Inl err"
  shows "async_browse_media h item reqs =
     Some (Inl (BrowseError (Error_listing_media_items err)),
           rs @ [List_media_items PAGE_SIZE page_token])"
  using browse_recent_branch [OF assms(1,2,3), of reqs] loop_state_fetch [OF assms(4)]
    fetch_err [OF assms(5,6)]
  by simp

theorem browse_recent_listing_error_witness:
  "parse_identifier (item_identifier \<lparr>item_identifier = ''broken/a/recent''\<rparr>)
     = Inr \<lparr>config_entry_id = ''broken'', album_media_id = Some ''recent'', photo_media_id = None\<rparr>
   \<and> async_entry_for_domain_unique_id example_hass DOMAIN ''broken'' = Some failing_entry
   \<and> loop_state failing_client [] (Suc 0)
       = Some ([List_media_items PAGE_SIZE None], [example_photo], Some ''t2'')
   \<and> list_media_items failing_client [List_media_items PAGE_SIZE None] PAGE_SIZE (Some ''t2'')
       = Inl (GooglePhotosApiError ''quota'')
   \<and> async_browse_media example_hass \<lparr>item_identifier = ''broken/a/recent''\<rparr> []
       = Some (Inl (BrowseError (Error_listing_media_items (GooglePhotosApiError ''quota''))),
               [List_media_items PAGE_SIZE None, List_media_items PAGE_SIZE (Some ''t2'')])"
proof -
  have p: "parse_identifier (item_identifier \<lparr>item_identifier = ''broken/a/recent''\<rparr>)
     = Inr \<lparr>config_entry_id = ''broken'', album_media_id = Some ''recent'', photo_media_id = None\<rparr>"
    by (simp add: parse_identifier_def PHOTO_SOURCE_IDENTIFIER_PHOTO_def)
  have a: "album_media_id \<lparr>config_entry_id = ''broken'', album_media_id = Some ''recent'',
              photo_media_id = None\<rparr> = Some ''recent''"
    by simp
  have e: "async_entry_for_domain_unique_id example_hass DOMAIN
             (config_entry_id \<lparr>config_entry_id = ''broken'', album_media_id = Some ''recent'',
                               photo_media_id = None\<rparr>) = Some failing_entry"
    by (simp add: example_hass_def)
  have ls: "loop_state (runtime_data failing_entry) [] (Suc 0)
       = Some ([List_media_items PAGE_SIZE None], [example_photo], Some ''t2'')"
    by (simp add: failing_entry_def failing_client_def MAX_PHOTOS_def)
  have small: "length [example_photo] < MAX_PHOTOS"
    by (simp add: MAX_PHOTOS_def)
  have err: "list_media_items (runtime_data failing_entry) [List_media_items PAGE_SIZE None]
               PAGE_SIZE (Some ''t2'') = Inl (GooglePhotosApiError ''quota'')"
    by (simp add: failing_entry_def failing_client_def)
  show ?thesis
    using p e ls err browse_recent_listing_error [OF p a e ls small err]
    by (simp add: failing_entry_def)
qed

text \<open>
  Claim C5, as amended. In a browse of the recent album of a found account the loop issues
  one page request per round, so \<open>k\<close> requests in \<open>k\<close> rounds; when a round starts with 50
  items or more the browse returns with the history as it is, no further request issued;
  when the page of a round has no continuation token the browse returns right after that
  request. The loop terminates whenever there is an \<open>N\<close> such that every page answered
  after \<open>N\<close> or more earlier requests that has a continuation token has at least one
  item; the browse then issues at most \<open>(N - length reqs) + 50\<close> requests, all of them
  page requests of size \<^verbatim>\<open>PAGE_SIZE\<close>.
\<close>

theorem browse_recent_pagination:
  assumes "parse_identifier (item_identifier item) = Inr ident"
    and "album_media_id ident = Some ''recent''"
    and "async_entry_for_domain_unique_id h DOMAIN (config_entry_id ident) = Some entry"
  shows "(\<forall>k rs media_items page_token.
            loop_state (runtime_data entry) reqs k = Some (rs, media_items, page_token) \<longrightarrow>
              length rs = length reqs + k
            \<and> (MAX_PHOTOS \<le> length media_items \<longrightarrow>
                 (\<exists>node. async_browse_media h item reqs = Some (Inr node, rs)))
            \<and> (\<forall>result. length media_items < MAX_PHOTOS
                  \<and> list_media_items (runtime_data entry) rs PAGE_SIZE page_token = Inr result
                  \<and> nextPageToken result = None \<longrightarrow>
                 (\<exists>node. async_browse_media h item reqs
                    = Some (Inr node, rs @ [List_media_items PAGE_SIZE page_token]))))
       \<and> ((\<forall>rs t result. N \<le> length rs
               \<and> list_media_items (runtime_data entry) rs PAGE_SIZE t = Inr result
               \<and> nextPageToken result \<noteq> None \<longrightarrow> mediaItems result \<noteq> [])
           \<longrightarrow> (\<exists>r new. async_browse_media h item reqs = Some (r, reqs @ new)
                 \<and> length new \<le> (N - length reqs) + MAX_PHOTOS
                 \<and> (\<forall>q \<in> set new. \<exists>t. q = List_media_items PAGE_SIZE t)))"
proof (intro conjI allI impI)
  fix k rs media_items page_token
  assume ls: "loop_state (runtime_data entry) reqs k = Some (rs, media_items, page_token)"
  from loop_state_length [OF ls] show "length rs = length reqs + k" by auto
  note eq = loop_state_fetch [OF ls]
  {
    assume "MAX_PHOTOS \<le> length media_items"
    then have "fetch_recent_items (runtime_data entry) rs media_items page_token
                 = Some (Inr media_items, rs)"
      by (simp add: fetch_done)
    then show "\<exists>node. async_browse_media h item reqs = Some (Inr node, rs)"
      using browse_recent_branch [OF assms, of reqs] eq by simp
  }
  {
    fix result
    assume a: "length media_items < MAX_PHOTOS
       \<and> list_media_items (runtime_data entry) rs PAGE_SIZE page_token = Inr result
       \<and> nextPageToken result = None"
    then have "fetch_recent_items (runtime_data entry) rs media_items page_token
                 = Some (Inr (media_items @ mediaItems result),
                         rs @ [List_media_items PAGE_SIZE page_token])"
      by (simp add: fetch_last)
    then show "\<exists>node. async_browse_media h item reqs
                 = Some (Inr node, rs @ [List_media_items PAGE_SIZE page_token])"
      using browse_recent_branch [OF assms, of reqs] eq by simp
  }
next
  assume "\<forall>rs t result. N \<le> length rs
               \<and> list_media_items (runtime_data entry) rs PAGE_SIZE t = Inr result
               \<and> nextPageToken result \<noteq> None \<longrightarrow> mediaItems result \<noteq> []"
  from fetch_terminates [OF this, of reqs "[]" None]
  obtain r new where
    f: "fetch_recent_items (runtime_data entry) reqs [] None = Some (r, reqs @ new)"
    and l: "length new \<le> (N - length reqs) + MAX_PHOTOS"
    and q: "\<forall>q \<in> set new. \<exists>t. q = List_media_items PAGE_SIZE t"
    by auto
  show "\<exists>r new. async_browse_media h item reqs = Some (r, reqs @ new)
                 \<and> length new \<le> (N - length reqs) + MAX_PHOTOS
                 \<and> (\<forall>q \<in> set new. \<exists>t. q = List_media_items PAGE_SIZE t)"
    using browse_recent_branch [OF assms, of reqs] f l q
    by (cases r) auto
qed

theorem browse_recent_pagination_witness:
  "parse_identifier (item_identifier \<lparr>item_identifier = ''acct/a/recent''\<rparr>)
     = Inr \<lparr>config_entry_id = ''acct'', album_media_id = Some ''recent'', photo_media_id = None\<rparr>
   \<and> async_entry_for_domain_unique_id example_hass DOMAIN ''acct'' = Some example_entry
   \<and> (\<exists>r new. async_browse_media example_hass \<lparr>item_identifier = ''acct/a/recent''\<rparr> []
                 = Some (r, new) \<and> length new \<le> MAX_PHOTOS)"
proof -
  have p: "parse_identifier (item_identifier \<lparr>item_identifier = ''acct/a/recent''\<rparr>)
     = Inr \<lparr>config_entry_id = ''acct'', album_media_id = Some ''recent'', photo_media_id = None\<rparr>"
    by (simp add: parse_identifier_def PHOTO_SOURCE_IDENTIFIER_PHOTO_def)
  have a: "album_media_id \<lparr>config_entry_id = ''acct'', album_media_id = Some ''recent'',
              photo_media_id = None\<rparr> = Some ''recent''"
    by simp
  have e: "async_entry_for_domain_unique_id example_hass DOMAIN
             (config_entry_id \<lparr>config_entry_id = ''acct'', album_media_id = Some ''recent'',
                               photo_media_id = None\<rparr>) = Some example_entry"
    by (simp add: example_hass_def)
  have progress: "\<forall>rs t result. 0 \<le> length rs
               \<and> list_media_items (runtime_data example_entry) rs PAGE_SIZE t = Inr result
               \<and> nextPageToken result \<noteq> None \<longrightarrow> mediaItems result \<noteq> []"
    by (auto simp: example_entry_def example_client_def split: if_splits)
  from browse_recent_pagination [OF p a e, of "[]" 0] progress
  have "\<exists>r new. async_browse_media example_hass \<lparr>item_identifier = ''acct/a/recent''\<rparr> []
                 = Some (r, new) \<and> length new \<le> MAX_PHOTOS"
    by auto
  then show ?thesis using p e by simp
qed

text \<open>
  Claim C5, as stated, fails: against a remote that answers every page request with an
  empty page and a continuation token the loop never leaves, and the browse does not
  return.
\<close>

theorem browse_recent_endless_counterexample:
  "async_browse_media example_hass \<lparr>item_identifier = ''endless/a/recent''\<rparr> [] = None"
  by (simp add: async_browse_media_def parse_identifier_def PHOTO_SOURCE_IDENTIFIER_PHOTO_def
     async_config_entry_def example_hass_def RECENT_PHOTOS_ALBUM_def endless_entry_def endless_diverges)

end
